theory Spec2Isabelle
  imports Complex_Main
begin

section \<open>Values that arrive on the wire\<close>

text \<open>
  The hook hands every inbound frame to \<^verbatim>\<open>JSON.parse\<close> and then reads
  properties of the result with ordinary member access. The result of a successful
  parse is a JSON value; a member that is not there reads as \<^verbatim>\<open>undefined\<close>,
  which is \<open>None\<close> below. A JSON number is only ever tested for being truthy, so any
  numeric carrier with a zero does; rationals are used.
\<close>

datatype json =
    JNull
  | JBool bool
  | JNum rat
  | JStr string
  | JArr "json list"
  | JObj "(string \<times> json) list"

type_synonym jsval = "json option"

datatype js_error = SyntaxError | TypeError | InvalidStateError | SecurityError

text \<open>JavaScript truthiness of a defined value, and of a possibly undefined one.\<close>

fun truthy :: "json \<Rightarrow> bool" where
  "truthy JNull = False"
| "truthy (JBool b) = b"
| "truthy (JNum n) = (n \<noteq> 0)"
| "truthy (JStr s) = (s \<noteq> [])"
| "truthy (JArr xs) = True"
| "truthy (JObj kvs) = True"

fun truthy_val :: "jsval \<Rightarrow> bool" where
  "truthy_val None = False"
| "truthy_val (Some v) = truthy v"

text \<open>
  Member access \<^verbatim>\<open>v.k\<close>. Reading a member of \<^verbatim>\<open>null\<close> throws a
  TypeError; an object yields its own property (the list holds one entry per key, as the
  parsed object does); every other value has none of the names the hook reads
  (\<^verbatim>\<open>type, payload, timestamp, id, action, severity, actor_id, target, message,
  metadata\<close>), so the access yields \<^verbatim>\<open>undefined\<close>.
\<close>

fun member_of :: "json \<Rightarrow> string \<Rightarrow> js_error + jsval" where
  "member_of JNull k = Inl TypeError"
| "member_of (JObj kvs) k = Inr (map_of kvs k)"
| "member_of v k = Inr None"

text \<open>\<^verbatim>\<open>a || b\<close> with a defined right operand.\<close>

fun or_else :: "jsval \<Rightarrow> json \<Rightarrow> json" where
  "or_else None d = d"
| "or_else (Some v) d = (if truthy v then v else d)"

section \<open>The dashboard slice\<close>

text \<open>
  \<^verbatim>\<open>DashboardEvent\<close> as the hook builds it. TypeScript's field types are erased at
  run time, so a field holds whatever the frame carried; \<open>ev_timestamp\<close> is copied from
  the frame and is \<^verbatim>\<open>undefined\<close> when the frame has none. The fields are prefixed
  because the notification entries reuse the names \<^verbatim>\<open>id, type, message, timestamp\<close>.
\<close>

record DashboardEvent =
  ev_id :: json
  ev_type :: json
  ev_action :: json
  ev_severity :: json
  ev_actor_id :: json
  ev_target :: json
  ev_message :: json
  ev_timestamp :: jsval
  ev_metadata :: json

datatype notification_type = info | warning | error | success

record notification =
  n_id :: string
  n_type :: notification_type
  n_message :: json
  n_timestamp :: string

record notification_payload =
  p_type :: notification_type
  p_message :: json

datatype time_range = range_1h | range_6h | range_24h | range_7d

record DashboardState =
  selectedTimeRange :: time_range
  sidebarCollapsed :: bool
  liveEventsEnabled :: bool
  recentEvents :: "DashboardEvent list"
  notifications :: "notification list"

definition initialState :: DashboardState where
  "initialState =
     \<lparr> selectedTimeRange = range_24h, sidebarCollapsed = False, liveEventsEnabled = True,
       recentEvents = [], notifications = [] \<rparr>"

text \<open>The reducers. Each takes the state last and returns the new state.\<close>

definition setTimeRange :: "time_range \<Rightarrow> DashboardState \<Rightarrow> DashboardState" where
  "setTimeRange r s = s\<lparr>selectedTimeRange := r\<rparr>"

definition toggleSidebar :: "DashboardState \<Rightarrow> DashboardState" where
  "toggleSidebar s = s\<lparr>sidebarCollapsed := \<not> sidebarCollapsed s\<rparr>"

definition toggleLiveEvents :: "DashboardState \<Rightarrow> DashboardState" where
  "toggleLiveEvents s = s\<lparr>liveEventsEnabled := \<not> liveEventsEnabled s\<rparr>"

text \<open>\<^verbatim>\<open>[action.payload, ...state.recentEvents.slice(0, 99)]\<close>\<close>

definition addEvent :: "DashboardEvent \<Rightarrow> DashboardState \<Rightarrow> DashboardState" where
  "addEvent e s = s\<lparr>recentEvents := e # take 99 (recentEvents s)\<rparr>"

definition clearEvents :: "DashboardState \<Rightarrow> DashboardState" where
  "clearEvents s = s\<lparr>recentEvents := []\<rparr>"

text \<open>
  \<^verbatim>\<open>addNotification\<close> draws an identifier from \<^verbatim>\<open>crypto.randomUUID()\<close> and
  the time from \<^verbatim>\<open>new Date().toISOString()\<close>; the two values drawn are the first two
  arguments.
\<close>

definition addNotification ::
  "string \<Rightarrow> string \<Rightarrow> notification_payload \<Rightarrow> DashboardState \<Rightarrow> DashboardState" where
  "addNotification uuid now p s =
     s\<lparr>notifications := notifications s @
        [\<lparr> n_id = uuid, n_type = p_type p, n_message = p_message p, n_timestamp = now \<rparr>]\<rparr>"

definition removeNotification :: "string \<Rightarrow> DashboardState \<Rightarrow> DashboardState" where
  "removeNotification i s = s\<lparr>notifications := filter (\<lambda>n. n_id n \<noteq> i) (notifications s)\<rparr>"

definition clearNotifications :: "DashboardState \<Rightarrow> DashboardState" where
  "clearNotifications s = s\<lparr>notifications := []\<rparr>"

text \<open>Dispatching \<^verbatim>\<open>addEvent\<close> once per event, in the order of the list.\<close>

definition addEvents :: "DashboardEvent list \<Rightarrow> DashboardState \<Rightarrow> DashboardState" where
  "addEvents es s = foldl (\<lambda>st e. addEvent e st) s es"

text \<open>A sample event, numbered, for running the reducers on concrete input.\<close>

definition mk_event :: "nat \<Rightarrow> DashboardEvent" where
  "mk_event n =
     \<lparr> ev_id = JNum (of_nat n), ev_type = JStr ''login'', ev_action = JStr ''login'',
       ev_severity = JStr ''info'', ev_actor_id = JStr [], ev_target = JNull,
       ev_message = JStr ''login'', ev_timestamp = Some (JStr ''T''), ev_metadata = JNull \<rparr>"

section \<open>The browser objects the hook drives\<close>

text \<open>
  A \<^verbatim>\<open>WebSocket\<close> object: its URL, its ready state, the frames handed to the
  network by \<^verbatim>\<open>send\<close>, which of its four handler slots hold a handler, and the
  values of \<^verbatim>\<open>token, isAuthenticated, enabled\<close> of the render whose \<^verbatim>\<open>connect\<close>
  created it (its handlers close over them).
\<close>

datatype ready_state = CONNECTING | OPEN | CLOSING | CLOSED

record props =
  token :: "string option"
  isAuthenticated :: bool
  enabled :: bool

record socket =
  url :: string
  readyState :: ready_state
  sent :: "string list"
  onopen_set :: bool
  onmessage_set :: bool
  onclose_set :: bool
  onerror_set :: bool
  made_by :: props

definition is_live :: "socket \<Rightarrow> bool" where
  "is_live s = (readyState s = CONNECTING \<or> readyState s = OPEN)"

text \<open>
  \<^verbatim>\<open>ws.send(data)\<close>: throws while the socket is still connecting, transmits when it
  is open, and silently drops the data once the socket is closing or closed.
\<close>

definition send :: "string \<Rightarrow> socket \<Rightarrow> js_error + socket" where
  "send d s =
     (case readyState s of
        CONNECTING \<Rightarrow> Inl InvalidStateError
      | OPEN \<Rightarrow> Inr (s\<lparr>sent := sent s @ [d]\<rparr>)
      | CLOSING \<Rightarrow> Inr s
      | CLOSED \<Rightarrow> Inr s)"

text \<open>\<^verbatim>\<open>ws.close()\<close>: starts the closing handshake unless the socket is already past it.\<close>

definition close :: "socket \<Rightarrow> socket" where
  "close s = (if is_live s then s\<lparr>readyState := CLOSING\<rparr> else s)"

record close_event =
  code :: nat
  wasClean :: bool

datatype timer_state = Pending | Fired | Cleared

text \<open>
  A timer made by \<^verbatim>\<open>setTimeout\<close>: its delay in milliseconds, its state, and the
  render whose \<^verbatim>\<open>connect\<close> its callback calls. Timer identifiers are positive in the
  browser, so a reference that holds one is truthy; here the identifier is the position
  in the list and the reference is an option.
\<close>

record timeout =
  delay :: nat
  t_state :: timer_state
  calls :: props

text \<open>
  A console entry keeps the call's fixed label and, for \<^verbatim>\<open>console.error(label, err)\<close>
  in a \<^verbatim>\<open>catch\<close>, the value caught; interpolated details are left out.
\<close>

datatype console_entry =
    Log string
  | Warn string
  | Error string js_error
  | ErrorEvent string

text \<open>The values one handler run draws from \<^verbatim>\<open>crypto.randomUUID()\<close> and the clock.\<close>

record draws =
  uuid_event :: string
  uuid_notification :: string
  now :: string

text \<open>
  An inbound text frame, as \<^verbatim>\<open>JSON.parse\<close> sees it: text it rejects with a
  SyntaxError, or text it parses to a value.
\<close>

datatype frame = Malformed string | WellFormed json

fun JSON_parse :: "frame \<Rightarrow> js_error + json" where
  "JSON_parse (Malformed t) = Inl SyntaxError"
| "JSON_parse (WellFormed v) = Inr v"

section \<open>The message handler\<close>

text \<open>
  Member access on a value known not to be \<^verbatim>\<open>null\<close> (the payload has been tested
  truthy when its members are read).
\<close>

definition prop_of :: "json \<Rightarrow> string \<Rightarrow> jsval" where
  "prop_of v k = (case member_of v k of Inl e \<Rightarrow> None | Inr r \<Rightarrow> r)"

text \<open>The object literal of \<^verbatim>\<open>ws.onmessage\<close> (the same text in both copies of the hook).\<close>

definition build_event :: "draws \<Rightarrow> json \<Rightarrow> json \<Rightarrow> jsval \<Rightarrow> DashboardEvent" where
  "build_event d ty payload ts =
     \<lparr> ev_id = or_else (prop_of payload ''id'') (JStr (uuid_event d)),
       ev_type = ty,
       ev_action = or_else (prop_of payload ''action'') ty,
       ev_severity = or_else (prop_of payload ''severity'') (JStr ''info''),
       ev_actor_id = or_else (prop_of payload ''actor_id'') (JStr []),
       ev_target = or_else (prop_of payload ''target'') JNull,
       ev_message = or_else (prop_of payload ''message'') ty,
       ev_timestamp = ts,
       ev_metadata = or_else (prop_of payload ''metadata'') JNull \<rparr>"

text \<open>
  \<^verbatim>\<open>dispatch(addEvent(e))\<close>, then the notification for a \<^verbatim>\<open>high\<close> or
  \<^verbatim>\<open>critical\<close> event.
\<close>

definition push_event :: "draws \<Rightarrow> DashboardEvent \<Rightarrow> DashboardState \<Rightarrow> DashboardState" where
  "push_event d e st =
     (let st1 = addEvent e st in
      if ev_severity e = JStr ''high'' \<or> ev_severity e = JStr ''critical'' then
        addNotification (uuid_notification d) (now d)
          \<lparr> p_type = (if ev_severity e = JStr ''critical'' then error else warning),
            p_message = ev_message e \<rparr> st1
      else st1)"

text \<open>
  The body of the \<^verbatim>\<open>try\<close> block of \<^verbatim>\<open>ws.onmessage\<close>, on the socket the
  handler belongs to and the store. \<open>Inl\<close> is a throw; each of the three places that
  can throw (the parse, \<^verbatim>\<open>data.type\<close> on \<^verbatim>\<open>null\<close>, \<^verbatim>\<open>ws.send\<close>) comes
  before any effect, so a throw leaves socket and store as they were.
\<close>

definition onmessage_try ::
  "draws \<Rightarrow> frame \<Rightarrow> socket \<Rightarrow> DashboardState \<Rightarrow> js_error + socket \<times> DashboardState" where
  "onmessage_try d f ws st =
     (case JSON_parse f of
        Inl e \<Rightarrow> Inl e
      | Inr data \<Rightarrow>
         (case member_of data ''type'' of
            Inl e \<Rightarrow> Inl e
          | Inr ty \<Rightarrow>
             if ty = Some (JStr ''heartbeat'') then
               (case send ''ping'' ws of Inl e \<Rightarrow> Inl e | Inr ws' \<Rightarrow> Inr (ws', st))
             else if ty = Some (JStr ''connected'') \<or> ty = Some (JStr ''pong'') then Inr (ws, st)
             else
               (case (ty, prop_of data ''payload'') of
                  (Some t, Some payload) \<Rightarrow>
                    if truthy t \<and> truthy payload then
                      Inr (ws, push_event d (build_event d t payload (prop_of data ''timestamp'')) st)
                    else Inr (ws, st)
                | _ \<Rightarrow> Inr (ws, st))))"

section \<open>The hook of frontend/src/hooks/useWebSocket.ts\<close>

text \<open>
  The state the hook acts on: the sockets it has created (a handle is a position in the
  list), the timers it has set, the store, the console, the page's location, and its two
  references \<^verbatim>\<open>wsRef\<close> and \<^verbatim>\<open>reconnectTimeoutRef\<close>. The hook's second effect, the
  25-second keep-alive ping, touches none of these but the open socket's outbound frames
  and is left out.
\<close>

record hook =
  sockets :: "socket list"
  timeouts :: "timeout list"
  store :: DashboardState
  console :: "console_entry list"
  location_protocol :: string
  location_host :: string
  wsRef :: "nat option"
  reconnectTimeoutRef :: "nat option"

definition truthy_token :: "string option \<Rightarrow> bool" where
  "truthy_token t = (case t of None \<Rightarrow> False | Some s \<Rightarrow> s \<noteq> [])"

definition token_text :: "string option \<Rightarrow> string" where
  "token_text t = (case t of None \<Rightarrow> ''null'' | Some s \<Rightarrow> s)"

definition new_socket :: "string \<Rightarrow> props \<Rightarrow> socket" where
  "new_socket u p =
     \<lparr> url = u, readyState = CONNECTING, sent = [], onopen_set = True, onmessage_set = True,
       onclose_set = True, onerror_set = True, made_by = p \<rparr>"

definition close_handle :: "nat \<Rightarrow> ('a hook_scheme) \<Rightarrow> ('a hook_scheme)" where
  "close_handle h w =
     (if h < length (sockets w) then w\<lparr>sockets := (sockets w)[h := close (sockets w ! h)]\<rparr> else w)"

definition setTimeout :: "props \<Rightarrow> nat \<Rightarrow> ('a hook_scheme) \<Rightarrow> ('a hook_scheme)" where
  "setTimeout p ms w =
     w\<lparr>timeouts := timeouts w @ [\<lparr> delay = ms, t_state = Pending, calls = p \<rparr>]\<rparr>"

definition clearTimeout :: "nat \<Rightarrow> ('a hook_scheme) \<Rightarrow> ('a hook_scheme)" where
  "clearTimeout t w =
     (if t < length (timeouts w) \<and> t_state (timeouts w ! t) = Pending
      then w\<lparr>timeouts := (timeouts w)[t := (timeouts w ! t)\<lparr>t_state := Cleared\<rparr>]\<rparr> else w)"

definition wsUrl_A :: "hook \<Rightarrow> string option \<Rightarrow> string" where
  "wsUrl_A w t =
     (if location_protocol w = ''https:'' then ''wss:'' else ''ws:'') @ ''//'' @ location_host w
       @ ''/api/admin/dashboard/ws/events?token='' @ token_text t"

text \<open>
  \<^verbatim>\<open>connect\<close> of a render with properties \<open>p\<close>. The third argument is what
  \<^verbatim>\<open>new WebSocket(wsUrl)\<close> does: \<open>Some e\<close> when it throws \<open>e\<close>, \<open>None\<close> when it
  returns a socket.
\<close>

definition connect_A :: "props \<Rightarrow> js_error option \<Rightarrow> hook \<Rightarrow> hook" where
  "connect_A p ctor w =
     (if \<not> truthy_token (token p) \<or> \<not> enabled p then w
      else
        let w1 = (case wsRef w of Some h \<Rightarrow> close_handle h w | None \<Rightarrow> w) in
        case ctor of
          Some e \<Rightarrow> w1\<lparr>console := console w1 @ [Error ''Failed to create WebSocket:'' e]\<rparr>
        | None \<Rightarrow>
            w1\<lparr>sockets := sockets w1 @ [new_socket (wsUrl_A w (token p)) p],
               wsRef := Some (length (sockets w1))\<rparr>)"

definition onopen_A :: "draws \<Rightarrow> hook \<Rightarrow> hook" where
  "onopen_A d w =
     w\<lparr>console := console w @ [Log ''WebSocket connected''],
       store := addNotification (uuid_notification d) (now d)
                  \<lparr> p_type = success, p_message = JStr ''Live events connected'' \<rparr> (store w)\<rparr>"

text \<open>\<^verbatim>\<open>ws.onmessage\<close> of the socket with handle \<open>h\<close>: the \<^verbatim>\<open>try\<close> block and its \<^verbatim>\<open>catch\<close>.\<close>

definition onmessage_A :: "nat \<Rightarrow> draws \<Rightarrow> frame \<Rightarrow> hook \<Rightarrow> hook" where
  "onmessage_A h d f w =
     (case onmessage_try d f (sockets w ! h) (store w) of
        Inl e \<Rightarrow> w\<lparr>console := console w @ [Error ''Failed to parse WebSocket message:'' e]\<rparr>
      | Inr (ws', st') \<Rightarrow> w\<lparr>sockets := (sockets w)[h := ws'], store := st'\<rparr>)"

text \<open>\<^verbatim>\<open>ws.onclose\<close> of a socket made by a render with properties \<open>p\<close>.\<close>

definition onclose_A :: "props \<Rightarrow> close_event \<Rightarrow> hook \<Rightarrow> hook" where
  "onclose_A p ev w =
     (let w1 = w\<lparr>console := console w @ [Log ''WebSocket closed:''], wsRef := None\<rparr> in
      if enabled p \<and> \<not> wasClean ev then
        (setTimeout p 5000 w1)\<lparr>reconnectTimeoutRef := Some (length (timeouts w1))\<rparr>
      else w1)"

definition onerror_A :: "hook \<Rightarrow> hook" where
  "onerror_A w = w\<lparr>console := console w @ [ErrorEvent ''WebSocket error:'']\<rparr>"

text \<open>The callback of the reconnect timer.\<close>

definition reconnect_A :: "props \<Rightarrow> js_error option \<Rightarrow> hook \<Rightarrow> hook" where
  "reconnect_A p ctor w =
     connect_A p ctor (w\<lparr>console := console w @ [Log ''Attempting to reconnect WebSocket...'']\<rparr>)"

text \<open>The clean-up of the effect that connects on mount.\<close>

definition cleanup_A :: "hook \<Rightarrow> hook" where
  "cleanup_A w =
     (let w1 = (case reconnectTimeoutRef w of Some t \<Rightarrow> clearTimeout t w | None \<Rightarrow> w) in
      case wsRef w1 of Some h \<Rightarrow> close_handle h w1 | None \<Rightarrow> w1)"

text \<open>
  What can happen to the hook, one event at a time: a render's effect calls
  \<^verbatim>\<open>connect\<close> or runs its clean-up, the browser opens a connecting socket, delivers
  a frame on an open or closing one, closes one that is not yet closed, reports an error,
  or fires a pending timer. The browser changes the ready state first and then calls the
  handler in the slot, if there is one. An event that cannot happen in the state leaves
  it as it is.
\<close>

datatype event =
    Connect props "js_error option"
  | Cleanup
  | SockOpen nat draws
  | SockMessage nat draws frame
  | SockClose nat close_event
  | SockError nat
  | TimerFires nat "js_error option"

definition set_ready :: "nat \<Rightarrow> ready_state \<Rightarrow> ('a hook_scheme) \<Rightarrow> ('a hook_scheme)" where
  "set_ready h r w = w\<lparr>sockets := (sockets w)[h := (sockets w ! h)\<lparr>readyState := r\<rparr>]\<rparr>"

definition set_fired :: "nat \<Rightarrow> ('a hook_scheme) \<Rightarrow> ('a hook_scheme)" where
  "set_fired t w = w\<lparr>timeouts := (timeouts w)[t := (timeouts w ! t)\<lparr>t_state := Fired\<rparr>]\<rparr>"

fun step_A :: "hook \<Rightarrow> event \<Rightarrow> hook" where
  "step_A w (Connect p ctor) = connect_A p ctor w"
| "step_A w Cleanup = cleanup_A w"
| "step_A w (SockOpen h d) =
     (if h < length (sockets w) \<and> readyState (sockets w ! h) = CONNECTING then
        (if onopen_set (sockets w ! h) then onopen_A d (set_ready h OPEN w) else set_ready h OPEN w)
      else w)"
| "step_A w (SockMessage h d f) =
     (if h < length (sockets w) \<and> readyState (sockets w ! h) \<in> {OPEN, CLOSING}
         \<and> onmessage_set (sockets w ! h)
      then onmessage_A h d f w else w)"
| "step_A w (SockClose h ev) =
     (if h < length (sockets w) \<and> readyState (sockets w ! h) \<noteq> CLOSED then
        (if onclose_set (sockets w ! h)
         then onclose_A (made_by (sockets w ! h)) ev (set_ready h CLOSED w)
         else set_ready h CLOSED w)
      else w)"
| "step_A w (SockError h) =
     (if h < length (sockets w) \<and> onerror_set (sockets w ! h) then onerror_A w else w)"
| "step_A w (TimerFires t ctor) =
     (if t < length (timeouts w) \<and> t_state (timeouts w ! t) = Pending
      then reconnect_A (calls (timeouts w ! t)) ctor (set_fired t w) else w)"

definition run_A :: "hook \<Rightarrow> event list \<Rightarrow> hook" where
  "run_A w evs = foldl step_A w evs"

definition live_handles :: "('a hook_scheme) \<Rightarrow> nat list" where
  "live_handles w = filter (\<lambda>h. is_live (sockets w ! h)) [0..<length (sockets w)]"

definition pending_timeouts :: "('a hook_scheme) \<Rightarrow> nat list" where
  "pending_timeouts w = filter (\<lambda>t. t_state (timeouts w ! t) = Pending) [0..<length (timeouts w)]"

text \<open>A freshly mounted hook on a page served from \<^verbatim>\<open>http://localhost:3000\<close>.\<close>

definition mounted :: hook where
  "mounted =
     \<lparr> sockets = [], timeouts = [], store = initialState, console = [],
       location_protocol = ''http:'', location_host = ''localhost:3000'',
       wsRef = None, reconnectTimeoutRef = None \<rparr>"

definition signed_in :: props where
  "signed_in = \<lparr> token = Some ''tok'', isAuthenticated = True, enabled = True \<rparr>"

definition sample_draws :: draws where
  "sample_draws = \<lparr> uuid_event = ''u-1'', uuid_notification = ''u-2'', now = ''2026-01-09T00:00:00.000Z'' \<rparr>"


text \<open>The frames and close events the properties below are stated on.\<close>

definition heartbeat_frame :: frame where
  "heartbeat_frame = WellFormed (JObj [(''type'', JStr ''heartbeat'')])"

definition risk_alert :: "string \<Rightarrow> frame" where
  "risk_alert sev =
     WellFormed (JObj
       [(''type'', JStr ''risk_alert''),
        (''payload'', JObj [(''message'', JStr ''m''), (''severity'', JStr sev)]),
        (''timestamp'', JStr ''T'')])"

definition risk_alert_payload :: "string \<Rightarrow> json" where
  "risk_alert_payload sev = JObj [(''message'', JStr ''m''), (''severity'', JStr sev)]"

definition untimed_data :: json where
  "untimed_data = JObj [(''type'', JStr ''login''), (''payload'', JObj [(''actor_id'', JStr ''u1'')])]"

definition untimed_frame :: frame where
  "untimed_frame = WellFormed untimed_data"

definition abnormal :: close_event where
  "abnormal = \<lparr> code = 1006, wasClean = False \<rparr>"

definition auth_rejected :: close_event where
  "auth_rejected = \<lparr> code = 4401, wasClean = False \<rparr>"

text \<open>
  \<open>k\<close> abnormal closures in a row, each followed by its reconnect timer firing: the
  \<open>i\<close>-th closes socket \<open>i\<close> and fires timer \<open>i\<close>.
\<close>

definition abnormal_cycles :: "nat \<Rightarrow> event list" where
  "abnormal_cycles k =
     concat (map (\<lambda>i. [SockClose i abnormal, TimerFires i None]) [0..<k])"

text \<open>The first hook after its first socket has opened.\<close>

definition connected_A :: hook where
  "connected_A = run_A mounted [Connect signed_in None, SockOpen 0 sample_draws]"

text \<open>
  A closed form, used in the proofs only, of the first hook's state after \<open>k\<close> abnormal
  closures, each followed by its timer: \<open>k\<close> closed sockets and one connecting, \<open>k\<close>
  fired timers.
\<close>

definition closed_socket :: socket where
  "closed_socket = (new_socket (wsUrl_A mounted (Some ''tok'')) signed_in)\<lparr>readyState := CLOSED\<rparr>"

definition after_cycles :: "nat \<Rightarrow> hook" where
  "after_cycles k =
     mounted\<lparr>sockets := replicate k closed_socket @ [new_socket (wsUrl_A mounted (Some ''tok'')) signed_in],
       timeouts := replicate k \<lparr> delay = 5000, t_state = Fired, calls = signed_in \<rparr>,
       console := concat (replicate k [Log ''WebSocket closed:'', Log ''Attempting to reconnect WebSocket...'']),
       wsRef := Some k,
       reconnectTimeoutRef := (case k of 0 \<Rightarrow> None | Suc j \<Rightarrow> Some j)\<rparr>"

section \<open>The second copy of the hook (src/unnamed/part_008)\<close>

text \<open>
  The repository holds a second \<^verbatim>\<open>useWebSocket\<close>, with the same message handler
  and four more references: an attempt counter, two flags and the keep-alive interval.
  Its state extends the first one's; the page location is not read (the URL comes from
  \<^verbatim>\<open>WS_BASE_URL\<close>, and is an argument below).
\<close>

record hook_B = hook +
  intervals :: "timeout list"
  reconnectAttemptsRef :: nat
  isConnectingRef :: bool
  isMountedRef :: bool
  pingIntervalRef :: "nat option"

definition MAX_RECONNECT_ATTEMPTS :: nat where
  "MAX_RECONNECT_ATTEMPTS = 5"

definition INITIAL_RECONNECT_DELAY_MS :: nat where
  "INITIAL_RECONNECT_DELAY_MS = 1000"

definition MAX_RECONNECT_DELAY_MS :: nat where
  "MAX_RECONNECT_DELAY_MS = 30000"

definition PING_INTERVAL_MS :: nat where
  "PING_INTERVAL_MS = 25000"

text \<open>
  \<^verbatim>\<open>Math.min(INITIAL * Math.pow(2, attempts), MAX)\<close>. The doubles involved are exact
  for every counter value up to the overflow of \<^verbatim>\<open>Math.pow\<close>, where the minimum is
  \<^verbatim>\<open>MAX\<close> in both readings, so natural numbers give the same result.
\<close>

definition getReconnectDelay :: "hook_B \<Rightarrow> nat" where
  "getReconnectDelay w =
     min (INITIAL_RECONNECT_DELAY_MS * 2 ^ reconnectAttemptsRef w) MAX_RECONNECT_DELAY_MS"

definition setInterval :: "props \<Rightarrow> nat \<Rightarrow> hook_B \<Rightarrow> hook_B" where
  "setInterval p ms w =
     w\<lparr>intervals := intervals w @ [\<lparr> delay = ms, t_state = Pending, calls = p \<rparr>]\<rparr>"

definition clearInterval :: "nat \<Rightarrow> hook_B \<Rightarrow> hook_B" where
  "clearInterval i w =
     (if i < length (intervals w) \<and> t_state (intervals w ! i) = Pending
      then w\<lparr>intervals := (intervals w)[i := (intervals w ! i)\<lparr>t_state := Cleared\<rparr>]\<rparr> else w)"

text \<open>Setting the four handler slots of a socket to \<^verbatim>\<open>null\<close>, or the close slot alone.\<close>

definition detach_all :: "socket \<Rightarrow> socket" where
  "detach_all s =
     s\<lparr>onclose_set := False, onerror_set := False, onmessage_set := False, onopen_set := False\<rparr>"

definition detach_onclose :: "socket \<Rightarrow> socket" where
  "detach_onclose s = s\<lparr>onclose_set := False\<rparr>"

definition cleanup_B :: "hook_B \<Rightarrow> hook_B" where
  "cleanup_B w =
     (let w1 = (case reconnectTimeoutRef w of
                  Some t \<Rightarrow> (clearTimeout t w)\<lparr>reconnectTimeoutRef := None\<rparr>
                | None \<Rightarrow> w);
          w2 = (case pingIntervalRef w1 of
                  Some i \<Rightarrow> (clearInterval i w1)\<lparr>pingIntervalRef := None\<rparr>
                | None \<Rightarrow> w1);
          w3 = (case wsRef w2 of
                  Some h \<Rightarrow> w2\<lparr>sockets := (sockets w2)[h := close (detach_all (sockets w2 ! h))],
                              wsRef := None\<rparr>
                | None \<Rightarrow> w2)
      in w3\<lparr>isConnectingRef := False\<rparr>)"

text \<open>The ready state behind \<^verbatim>\<open>wsRef.current?.readyState\<close>.\<close>

definition ref_state :: "hook_B \<Rightarrow> ready_state option" where
  "ref_state w = (case wsRef w of None \<Rightarrow> None | Some h \<Rightarrow> Some (readyState (sockets w ! h)))"

definition give_up :: "draws \<Rightarrow> hook_B \<Rightarrow> hook_B" where
  "give_up d w =
     w\<lparr>console := console w @ [Warn ''WebSocket: Max reconnect attempts reached. Stopping.''],
       store := addNotification (uuid_notification d) (now d)
                  \<lparr> p_type = warning,
                    p_message = JStr ''Live events disconnected. Refresh page to reconnect.'' \<rparr>
                  (store w)\<rparr>"

text \<open>
  \<^verbatim>\<open>connect\<close> of a render with properties \<open>p\<close>; \<open>u\<close> is the URL it composes and
  \<open>ctor\<close> what the constructor does.
\<close>

definition connect_B :: "props \<Rightarrow> string \<Rightarrow> js_error option \<Rightarrow> draws \<Rightarrow> hook_B \<Rightarrow> hook_B" where
  "connect_B p u ctor d w =
     (if \<not> isMountedRef w then w
      else if \<not> truthy_token (token p) \<or> \<not> isAuthenticated p \<or> \<not> enabled p then w
      else if isConnectingRef w then w
      else if ref_state w = Some OPEN then w
      else if ref_state w = Some CONNECTING then w
      else if reconnectAttemptsRef w \<ge> MAX_RECONNECT_ATTEMPTS then give_up d w
      else
        let w1 = w\<lparr>isConnectingRef := True\<rparr>;
            w2 = (case wsRef w1 of
                    Some h \<Rightarrow> w1\<lparr>sockets := (sockets w1)[h := close (detach_onclose (sockets w1 ! h))],
                                wsRef := None\<rparr>
                  | None \<Rightarrow> w1)
        in case ctor of
             Some e \<Rightarrow> w2\<lparr>console := console w2 @ [Error ''WebSocket: Failed to create connection:'' e],
                          isConnectingRef := False\<rparr>
           | None \<Rightarrow> w2\<lparr>sockets := sockets w2 @ [new_socket u p],
                        wsRef := Some (length (sockets w2))\<rparr>)"

definition onopen_B :: "nat \<Rightarrow> draws \<Rightarrow> hook_B \<Rightarrow> hook_B" where
  "onopen_B h d w =
     (if \<not> isMountedRef w then close_handle h w
      else
        let w1 = w\<lparr>console := console w @ [Log ''WebSocket: Connected successfully''],
                   isConnectingRef := False, reconnectAttemptsRef := 0,
                   store := addNotification (uuid_notification d) (now d)
                              \<lparr> p_type = success, p_message = JStr ''Live events connected'' \<rparr>
                              (store w)\<rparr>;
            w2 = (case pingIntervalRef w1 of Some i \<Rightarrow> clearInterval i w1 | None \<Rightarrow> w1)
        in (setInterval (made_by (sockets w ! h)) PING_INTERVAL_MS w2)
             \<lparr>pingIntervalRef := Some (length (intervals w2))\<rparr>)"

definition onmessage_B :: "nat \<Rightarrow> draws \<Rightarrow> frame \<Rightarrow> hook_B \<Rightarrow> hook_B" where
  "onmessage_B h d f w =
     (if \<not> isMountedRef w then w
      else
        case onmessage_try d f (sockets w ! h) (store w) of
          Inl e \<Rightarrow> w\<lparr>console := console w @ [Error ''WebSocket: Failed to parse message:'' e]\<rparr>
        | Inr (ws', st') \<Rightarrow> w\<lparr>sockets := (sockets w)[h := ws'], store := st'\<rparr>)"

definition auth_failure :: "close_event \<Rightarrow> bool" where
  "auth_failure ev = (code ev = 1008 \<or> code ev = 4001 \<or> code ev = 4003 \<or> code ev = 4401)"

definition onclose_B :: "props \<Rightarrow> close_event \<Rightarrow> hook_B \<Rightarrow> hook_B" where
  "onclose_B p ev w =
     (if \<not> isMountedRef w then w
      else
        let w1 = w\<lparr>isConnectingRef := False, wsRef := None\<rparr>;
            w2 = (case pingIntervalRef w1 of
                    Some i \<Rightarrow> (clearInterval i w1)\<lparr>pingIntervalRef := None\<rparr>
                  | None \<Rightarrow> w1)
        in if wasClean ev \<or> auth_failure ev then
             w2\<lparr>console := console w2 @ [Log ''WebSocket: Closed cleanly or auth failed'']\<rparr>
           else if enabled p \<and> isMountedRef w2 then
             let w3 = w2\<lparr>reconnectAttemptsRef := reconnectAttemptsRef w2 + 1\<rparr>;
                 ms = getReconnectDelay w3;
                 w4 = w3\<lparr>console := console w3 @ [Log ''WebSocket: Connection lost. Reconnecting'']\<rparr>
             in (setTimeout p ms w4)\<lparr>reconnectTimeoutRef := Some (length (timeouts w4))\<rparr>
           else w2)"

definition onerror_B :: "hook_B \<Rightarrow> hook_B" where
  "onerror_B w = w\<lparr>isConnectingRef := False\<rparr>"

text \<open>The callback of either timer (the 100 ms start delay and the reconnect delay).\<close>

definition timer_B :: "props \<Rightarrow> string \<Rightarrow> js_error option \<Rightarrow> draws \<Rightarrow> hook_B \<Rightarrow> hook_B" where
  "timer_B p u ctor d w = (if isMountedRef w then connect_B p u ctor d w else w)"

text \<open>The callback of the keep-alive interval.\<close>

definition ping_B :: "hook_B \<Rightarrow> hook_B" where
  "ping_B w =
     (case wsRef w of
        None \<Rightarrow> w
      | Some h \<Rightarrow>
          if readyState (sockets w ! h) = OPEN
          then w\<lparr>sockets := (sockets w)[h := (sockets w ! h)\<lparr>sent := sent (sockets w ! h) @ [''ping'']\<rparr>]\<rparr>
          else w)"

text \<open>
  The main effect of a render with properties \<open>p\<close>, its clean-up (which knows the
  start timer it set, if any), and the clean-up of the unmount effect.
\<close>

definition may_connect :: "props \<Rightarrow> bool" where
  "may_connect p = (enabled p \<and> isAuthenticated p \<and> truthy_token (token p))"

definition effect_B :: "props \<Rightarrow> hook_B \<Rightarrow> hook_B" where
  "effect_B p w =
     (let w1 = w\<lparr>isMountedRef := True\<rparr> in
      if may_connect p then setTimeout p 100 w1 else w1)"

definition effect_cleanup_B :: "props \<Rightarrow> nat \<Rightarrow> hook_B \<Rightarrow> hook_B" where
  "effect_cleanup_B p t w =
     (if may_connect p then clearTimeout t w else cleanup_B (w\<lparr>isMountedRef := False\<rparr>))"

definition unmount_B :: "hook_B \<Rightarrow> hook_B" where
  "unmount_B w = cleanup_B (w\<lparr>isMountedRef := False\<rparr>)"

datatype event_B =
    Effect props
  | EffectCleanup props nat
  | Unmount
  | Open_B nat draws
  | Message_B nat draws frame
  | Close_B nat close_event
  | Error_B nat
  | Timer_B nat string "js_error option" draws
  | Ping_B nat

fun step_B :: "hook_B \<Rightarrow> event_B \<Rightarrow> hook_B" where
  "step_B w (Effect p) = effect_B p w"
| "step_B w (EffectCleanup p t) = effect_cleanup_B p t w"
| "step_B w Unmount = unmount_B w"
| "step_B w (Open_B h d) =
     (if h < length (sockets w) \<and> readyState (sockets w ! h) = CONNECTING then
        (if onopen_set (sockets w ! h) then onopen_B h d (set_ready h OPEN w) else set_ready h OPEN w)
      else w)"
| "step_B w (Message_B h d f) =
     (if h < length (sockets w) \<and> readyState (sockets w ! h) \<in> {OPEN, CLOSING}
         \<and> onmessage_set (sockets w ! h)
      then onmessage_B h d f w else w)"
| "step_B w (Close_B h ev) =
     (if h < length (sockets w) \<and> readyState (sockets w ! h) \<noteq> CLOSED then
        (if onclose_set (sockets w ! h)
         then onclose_B (made_by (sockets w ! h)) ev (set_ready h CLOSED w)
         else set_ready h CLOSED w)
      else w)"
| "step_B w (Error_B h) =
     (if h < length (sockets w) \<and> onerror_set (sockets w ! h) then onerror_B w else w)"
| "step_B w (Timer_B t u ctor d) =
     (if t < length (timeouts w) \<and> t_state (timeouts w ! t) = Pending
      then timer_B (calls (timeouts w ! t)) u ctor d (set_fired t w) else w)"
| "step_B w (Ping_B i) =
     (if i < length (intervals w) \<and> t_state (intervals w ! i) = Pending then ping_B w else w)"

definition run_B :: "hook_B \<Rightarrow> event_B list \<Rightarrow> hook_B" where
  "run_B w evs = foldl step_B w evs"

definition mounted_B :: hook_B where
  "mounted_B =
     \<lparr> sockets = [], timeouts = [], store = initialState, console = [],
       location_protocol = ''http:'', location_host = ''localhost:3000'',
       wsRef = None, reconnectTimeoutRef = None,
       intervals = [], reconnectAttemptsRef = 0, isConnectingRef = False,
       isMountedRef = False, pingIntervalRef = None \<rparr>"

text \<open>
  The invariant behind ``one live handle'' in the second copy: a socket that is live, or
  that still has its close handler and has not reported its close, is the one
  \<^verbatim>\<open>wsRef\<close> holds.
\<close>

definition attached :: "socket \<Rightarrow> bool" where
  "attached s = (onclose_set s \<and> readyState s \<noteq> CLOSED)"

definition one_handle :: "hook_B \<Rightarrow> bool" where
  "one_handle w =
     ((\<forall>h < length (sockets w). is_live (sockets w ! h) \<or> attached (sockets w ! h) \<longrightarrow> wsRef w = Some h)
    \<and> (\<forall>h. wsRef w = Some h \<longrightarrow> h < length (sockets w)))"

section \<open>The event buffer\<close>

lemma addEvents_Nil: "addEvents [] s = s"
  by (simp add: addEvents_def)

lemma addEvents_Cons: "addEvents (e # es) s = addEvents es (addEvent e s)"
  by (simp add: addEvents_def)

lemma take_cap_through: "n \<le> Suc m \<Longrightarrow> take n (ys @ e # take m xs) = take n (ys @ e # xs)"
proof -
  assume le: "n \<le> Suc m"
  have "take (n - length ys) (e # take m xs) = take (n - length ys) (e # xs)"
  proof (cases "n - length ys")
    case 0
    then show ?thesis by simp
  next
    case (Suc k)
    with le have "k \<le> m" by arith
    then show ?thesis using Suc by (simp add: min_absorb1)
  qed
  then show ?thesis by simp
qed

lemma recentEvents_addEvents:
  "recentEvents (addEvents es s) =
     (if es = [] then recentEvents s else take 100 (rev es @ recentEvents s))"
proof (induction es arbitrary: s)
  case Nil
  show ?case by (simp add: addEvents_Nil)
next
  case (Cons e es)
  show ?case
  proof (cases "es = []")
    case True
    then show ?thesis by (simp add: addEvents_Cons addEvents_Nil addEvent_def)
  next
    case False
    have "recentEvents (addEvents (e # es) s) = take 100 (rev es @ e # take 99 (recentEvents s))"
      using False Cons.IH [of "addEvent e s"] by (simp add: addEvents_Cons addEvent_def)
    also have "\<dots> = take 100 (rev es @ e # recentEvents s)"
      by (rule take_cap_through) simp
    finally show ?thesis by simp
  qed
qed

text \<open>
  C5. \<^verbatim>\<open>addEvent\<close> puts the new event at the head and keeps at most 99 of the old
  ones, so the buffer holds at most 100 entries after every append, whatever it held
  before; and after \<open>100 + k\<close> appends (\<open>k \<ge> 1\<close>) it holds exactly the last 100 appended
  events, the most recent first.
\<close>

theorem C5_buffer_keeps_latest_100:
  "recentEvents (addEvent e s) = e # take 99 (recentEvents s)
   \<and> length (recentEvents (addEvent e s)) \<le> 100
   \<and> (\<forall>n. 0 < n \<and> n \<le> length es \<longrightarrow>
        length (recentEvents (addEvents (take n es) s)) \<le> 100)
   \<and> (length es = 100 + k \<longrightarrow> 1 \<le> k \<longrightarrow>
        recentEvents (addEvents es s) = rev (drop k es)
        \<and> length (recentEvents (addEvents es s)) = 100)"
proof (intro conjI allI impI)
  show "recentEvents (addEvent e s) = e # take 99 (recentEvents s)"
    by (simp add: addEvent_def)
  show "length (recentEvents (addEvent e s)) \<le> 100"
    by (simp add: addEvent_def)
next
  fix n :: nat
  assume "0 < n \<and> n \<le> length es"
  then have "take n es \<noteq> []" by auto
  then show "length (recentEvents (addEvents (take n es) s)) \<le> 100"
    by (simp add: recentEvents_addEvents)
next
  assume len: "length es = 100 + k" and "1 \<le> k"
  then have ne: "es \<noteq> []" by auto
  have "take 100 (rev es) = rev (drop k es)"
    using len by (simp add: take_rev)
  then show "recentEvents (addEvents es s) = rev (drop k es)"
    using ne len by (simp add: recentEvents_addEvents)
  then show "length (recentEvents (addEvents es s)) = 100"
    using len by simp
qed

theorem C5_buffer_witness:
  "length (map mk_event [0..<101]) = 100 + 1 \<and> (1::nat) \<le> 1
   \<and> recentEvents (addEvents (map mk_event [0..<101]) initialState)
       = rev (drop 1 (map mk_event [0..<101]))
   \<and> length (recentEvents (addEvents (map mk_event [0..<101]) initialState)) = 100"
  using C5_buffer_keeps_latest_100 [where es = "map mk_event [0..<101]" and k = 1 and s = initialState]
  by simp

section \<open>The reducers touch one field each\<close>

text \<open>
  C10. Each of the five mutations changes its own field only: \<^verbatim>\<open>addEvent\<close> and
  \<^verbatim>\<open>clearEvents\<close> leave the notifications and the three view settings as they were,
  and \<^verbatim>\<open>addNotification\<close>, \<^verbatim>\<open>removeNotification\<close> and
  \<^verbatim>\<open>clearNotifications\<close> leave the event buffer and the three view settings as they
  were.
\<close>

theorem C10_reducers_frame:
  "selectedTimeRange (addEvent e s) = selectedTimeRange s
   \<and> sidebarCollapsed (addEvent e s) = sidebarCollapsed s
   \<and> liveEventsEnabled (addEvent e s) = liveEventsEnabled s
   \<and> notifications (addEvent e s) = notifications s
   \<and> selectedTimeRange (clearEvents s) = selectedTimeRange s
   \<and> sidebarCollapsed (clearEvents s) = sidebarCollapsed s
   \<and> liveEventsEnabled (clearEvents s) = liveEventsEnabled s
   \<and> notifications (clearEvents s) = notifications s
   \<and> selectedTimeRange (addNotification u n p s) = selectedTimeRange s
   \<and> sidebarCollapsed (addNotification u n p s) = sidebarCollapsed s
   \<and> liveEventsEnabled (addNotification u n p s) = liveEventsEnabled s
   \<and> recentEvents (addNotification u n p s) = recentEvents s
   \<and> selectedTimeRange (removeNotification i s) = selectedTimeRange s
   \<and> sidebarCollapsed (removeNotification i s) = sidebarCollapsed s
   \<and> liveEventsEnabled (removeNotification i s) = liveEventsEnabled s
   \<and> recentEvents (removeNotification i s) = recentEvents s
   \<and> selectedTimeRange (clearNotifications s) = selectedTimeRange s
   \<and> sidebarCollapsed (clearNotifications s) = sidebarCollapsed s
   \<and> liveEventsEnabled (clearNotifications s) = liveEventsEnabled s
   \<and> recentEvents (clearNotifications s) = recentEvents s"
  by (simp add: addEvent_def clearEvents_def addNotification_def removeNotification_def
      clearNotifications_def)

section \<open>The message handler\<close>

lemma truthy_or_else: "truthy dflt \<Longrightarrow> truthy (or_else v dflt)"
  by (cases v) simp_all

lemma build_event_populated:
  "truthy t \<Longrightarrow>
     truthy (ev_type (build_event d t payload ts))
   \<and> truthy (ev_action (build_event d t payload ts))
   \<and> truthy (ev_severity (build_event d t payload ts))
   \<and> truthy (ev_message (build_event d t payload ts))
   \<and> ev_timestamp (build_event d t payload ts) = ts"
  by (simp add: build_event_def truthy_or_else)

lemma recentEvents_push_event: "recentEvents (push_event d e st) = e # take 99 (recentEvents st)"
  by (simp add: push_event_def Let_def addEvent_def addNotification_def)

lemma onmessage_try_cases:
  assumes "onmessage_try d f ws st = Inr (ws', st')"
  shows "st' = st \<or>
         (\<exists>data t payload. f = WellFormed data \<and> truthy t \<and> ws' = ws
            \<and> st' = push_event d (build_event d t payload (prop_of data ''timestamp'')) st)"
proof (cases f)
  case (Malformed x)
  with assms show ?thesis by (simp add: onmessage_try_def)
next
  case (WellFormed data)
  with assms show ?thesis
    by (auto simp: onmessage_try_def split: sum.splits if_splits option.splits)
qed

lemma onmessage_try_event:
  assumes "member_of data ''type'' = Inr (Some t)" and "truthy t"
    and "t \<noteq> JStr ''heartbeat''" and "t \<noteq> JStr ''connected''" and "t \<noteq> JStr ''pong''"
    and "prop_of data ''payload'' = Some payload" and "truthy payload"
  shows "onmessage_try d (WellFormed data) ws st =
           Inr (ws, push_event d (build_event d t payload (prop_of data ''timestamp'')) st)"
  using assms by (simp add: onmessage_try_def)

text \<open>
  C4, as amended. Whenever the handler changes the store, it has pushed one event built
  from a well-formed frame, and that event's type, action, severity and message are
  truthy. A frame with a truthy type other than \<^verbatim>\<open>heartbeat\<close>,
  \<^verbatim>\<open>connected\<close> and \<^verbatim>\<open>pong\<close> and a truthy payload is pushed as an event
  whose severity is the payload's if truthy and \<^verbatim>\<open>info\<close> otherwise, whose message
  and action default to the type, and whose id defaults to a locally drawn UUID. The
  timestamp is whatever the frame's \<^verbatim>\<open>timestamp\<close> member holds: it has no default
  and is undefined when the frame carries none.
\<close>

theorem C4_pushed_events_populated:
  "(onmessage_try d f ws st = Inr (ws', st') \<longrightarrow>
      st' = st \<or>
      (\<exists>data ev. f = WellFormed data \<and> st' = push_event d ev st
         \<and> recentEvents st' = ev # take 99 (recentEvents st)
         \<and> truthy (ev_type ev) \<and> truthy (ev_action ev) \<and> truthy (ev_severity ev)
         \<and> truthy (ev_message ev)
         \<and> ev_timestamp ev = prop_of data ''timestamp''))
   \<and> (member_of data ''type'' = Inr (Some t) \<and> truthy t
        \<and> t \<noteq> JStr ''heartbeat'' \<and> t \<noteq> JStr ''connected'' \<and> t \<noteq> JStr ''pong''
        \<and> prop_of data ''payload'' = Some payload \<and> truthy payload \<longrightarrow>
      (\<exists>ev. onmessage_try d (WellFormed data) ws st = Inr (ws, push_event d ev st)
         \<and> ev_type ev = t
         \<and> ev_severity ev = or_else (prop_of payload ''severity'') (JStr ''info'')
         \<and> ev_message ev = or_else (prop_of payload ''message'') t
         \<and> ev_action ev = or_else (prop_of payload ''action'') t
         \<and> ev_id ev = or_else (prop_of payload ''id'') (JStr (uuid_event d))
         \<and> ev_timestamp ev = prop_of data ''timestamp''))"
proof (intro conjI impI)
  assume run: "onmessage_try d f ws st = Inr (ws', st')"
  from onmessage_try_cases [OF run]
  consider "st' = st"
    | data t payload where "f = WellFormed data" "truthy t"
        "st' = push_event d (build_event d t payload (prop_of data ''timestamp'')) st"
    by blast
  then show "st' = st \<or>
      (\<exists>data ev. f = WellFormed data \<and> st' = push_event d ev st
         \<and> recentEvents st' = ev # take 99 (recentEvents st)
         \<and> truthy (ev_type ev) \<and> truthy (ev_action ev) \<and> truthy (ev_severity ev)
         \<and> truthy (ev_message ev)
         \<and> ev_timestamp ev = prop_of data ''timestamp'')"
  proof cases
    case 1
    then show ?thesis by simp
  next
    case 2
    let ?ev = "build_event d t payload (prop_of data ''timestamp'')"
    have "f = WellFormed data \<and> st' = push_event d ?ev st
            \<and> recentEvents st' = ?ev # take 99 (recentEvents st)
            \<and> truthy (ev_type ?ev) \<and> truthy (ev_action ?ev) \<and> truthy (ev_severity ?ev)
            \<and> truthy (ev_message ?ev)
            \<and> ev_timestamp ?ev = prop_of data ''timestamp''"
      using 2 build_event_populated [of t d payload "prop_of data ''timestamp''"]
      by (simp add: recentEvents_push_event)
    then show ?thesis by blast
  qed
next
  assume h: "member_of data ''type'' = Inr (Some t) \<and> truthy t
        \<and> t \<noteq> JStr ''heartbeat'' \<and> t \<noteq> JStr ''connected'' \<and> t \<noteq> JStr ''pong''
        \<and> prop_of data ''payload'' = Some payload \<and> truthy payload"
  let ?ev = "build_event d t payload (prop_of data ''timestamp'')"
  have "onmessage_try d (WellFormed data) ws st = Inr (ws, push_event d ?ev st)"
    using h by (intro onmessage_try_event) simp_all
  moreover have "ev_type ?ev = t
         \<and> ev_severity ?ev = or_else (prop_of payload ''severity'') (JStr ''info'')
         \<and> ev_message ?ev = or_else (prop_of payload ''message'') t
         \<and> ev_action ?ev = or_else (prop_of payload ''action'') t
         \<and> ev_id ?ev = or_else (prop_of payload ''id'') (JStr (uuid_event d))
         \<and> ev_timestamp ?ev = prop_of data ''timestamp''"
    by (simp add: build_event_def)
  ultimately show "\<exists>ev. onmessage_try d (WellFormed data) ws st = Inr (ws, push_event d ev st)
         \<and> ev_type ev = t
         \<and> ev_severity ev = or_else (prop_of payload ''severity'') (JStr ''info'')
         \<and> ev_message ev = or_else (prop_of payload ''message'') t
         \<and> ev_action ev = or_else (prop_of payload ''action'') t
         \<and> ev_id ev = or_else (prop_of payload ''id'') (JStr (uuid_event d))
         \<and> ev_timestamp ev = prop_of data ''timestamp''"
    by blast
qed

text \<open>
  The claim as written fails on a frame without a \<^verbatim>\<open>timestamp\<close> member: the event
  reaches the buffer with its timestamp undefined.
\<close>

theorem C4_counterexample:
  "map ev_timestamp
     (recentEvents (store (onmessage_A 0 sample_draws untimed_frame connected_A))) = [None]"
  by (simp add: connected_A_def run_A_def mounted_def signed_in_def connect_A_def truthy_token_def
      new_socket_def set_ready_def onopen_A_def onmessage_A_def onmessage_try_def untimed_frame_def
      untimed_data_def prop_of_def push_event_def build_event_def addEvent_def addNotification_def initialState_def
      Let_def)

theorem C4_witness:
  "(member_of untimed_data ''type'' = Inr (Some (JStr ''login'')) \<and> truthy (JStr ''login'')
    \<and> JStr ''login'' \<noteq> JStr ''heartbeat'' \<and> JStr ''login'' \<noteq> JStr ''connected''
    \<and> JStr ''login'' \<noteq> JStr ''pong''
    \<and> prop_of untimed_data ''payload'' = Some (JObj [(''actor_id'', JStr ''u1'')])
    \<and> truthy (JObj [(''actor_id'', JStr ''u1'')]))
   \<and> (\<exists>ev. onmessage_try sample_draws (WellFormed untimed_data) (sockets connected_A ! 0) initialState
              = Inr (sockets connected_A ! 0, push_event sample_draws ev initialState)
         \<and> ev_type ev = JStr ''login''
         \<and> ev_severity ev = JStr ''info''
         \<and> ev_message ev = JStr ''login''
         \<and> ev_action ev = JStr ''login''
         \<and> ev_id ev = JStr ''u-1''
         \<and> ev_timestamp ev = None)"
proof -
  have h: "member_of untimed_data ''type'' = Inr (Some (JStr ''login'')) \<and> truthy (JStr ''login'')
    \<and> JStr ''login'' \<noteq> JStr ''heartbeat'' \<and> JStr ''login'' \<noteq> JStr ''connected''
    \<and> JStr ''login'' \<noteq> JStr ''pong''
    \<and> prop_of untimed_data ''payload'' = Some (JObj [(''actor_id'', JStr ''u1'')])
    \<and> truthy (JObj [(''actor_id'', JStr ''u1'')])"
    by (simp add: untimed_data_def prop_of_def)
  have e: "or_else (prop_of (JObj [(''actor_id'', JStr ''u1'')]) ''severity'') (JStr ''info'') = JStr ''info''"
    "or_else (prop_of (JObj [(''actor_id'', JStr ''u1'')]) ''message'') (JStr ''login'') = JStr ''login''"
    "or_else (prop_of (JObj [(''actor_id'', JStr ''u1'')]) ''action'') (JStr ''login'') = JStr ''login''"
    "or_else (prop_of (JObj [(''actor_id'', JStr ''u1'')]) ''id'') (JStr (uuid_event sample_draws)) = JStr ''u-1''"
    "prop_of untimed_data ''timestamp'' = None"
    by (simp_all add: prop_of_def sample_draws_def untimed_data_def)
  have "\<exists>ev. onmessage_try sample_draws (WellFormed untimed_data) (sockets connected_A ! 0) initialState
              = Inr (sockets connected_A ! 0, push_event sample_draws ev initialState)
         \<and> ev_type ev = JStr ''login''
         \<and> ev_severity ev = or_else (prop_of (JObj [(''actor_id'', JStr ''u1'')]) ''severity'') (JStr ''info'')
         \<and> ev_message ev = or_else (prop_of (JObj [(''actor_id'', JStr ''u1'')]) ''message'') (JStr ''login'')
         \<and> ev_action ev = or_else (prop_of (JObj [(''actor_id'', JStr ''u1'')]) ''action'') (JStr ''login'')
         \<and> ev_id ev = or_else (prop_of (JObj [(''actor_id'', JStr ''u1'')]) ''id'') (JStr (uuid_event sample_draws))
         \<and> ev_timestamp ev = prop_of untimed_data ''timestamp''"
    by (rule mp [OF conjunct2 [OF C4_pushed_events_populated [where data = untimed_data and t = "JStr ''login''"
        and payload = "JObj [(''actor_id'', JStr ''u1'')]" and d = sample_draws
        and ws = "sockets connected_A ! 0" and st = initialState]] h])
  then have "\<exists>ev. onmessage_try sample_draws (WellFormed untimed_data) (sockets connected_A ! 0) initialState
              = Inr (sockets connected_A ! 0, push_event sample_draws ev initialState)
         \<and> ev_type ev = JStr ''login''
         \<and> ev_severity ev = JStr ''info''
         \<and> ev_message ev = JStr ''login''
         \<and> ev_action ev = JStr ''login''
         \<and> ev_id ev = JStr ''u-1''
         \<and> ev_timestamp ev = None"
    unfolding e .
  with h show ?thesis by (rule conjI)
qed

text \<open>
  C6. On an open socket a heartbeat frame makes the handler send exactly one
  \<^verbatim>\<open>ping\<close> on that socket and leaves the store alone. A \<^verbatim>\<open>risk_alert\<close>
  frame with severity \<^verbatim>\<open>critical\<close> leaves the sockets alone, pushes one event of
  that severity and appends exactly one notification, of type \<^verbatim>\<open>error\<close>; with
  severity \<^verbatim>\<open>high\<close> the notification is of type \<^verbatim>\<open>warning\<close>.
\<close>

theorem C6_heartbeat_and_alerts:
  assumes "h < length (sockets w)" and "readyState (sockets w ! h) = OPEN"
  shows "onmessage_A h d heartbeat_frame w =
           w\<lparr>sockets := (sockets w)[h := (sockets w ! h)\<lparr>sent := sent (sockets w ! h) @ [''ping'']\<rparr>]\<rparr>
         \<and> recentEvents (store (onmessage_A h d heartbeat_frame w)) = recentEvents (store w)
         \<and> sockets (onmessage_A h d (risk_alert ''critical'') w) = sockets w
         \<and> store (onmessage_A h d (risk_alert ''critical'') w) =
             addNotification (uuid_notification d) (now d)
               \<lparr> p_type = error, p_message = JStr ''m'' \<rparr>
               (addEvent (build_event d (JStr ''risk_alert'') (risk_alert_payload ''critical'')
                            (Some (JStr ''T''))) (store w))
         \<and> ev_severity (build_event d (JStr ''risk_alert'') (risk_alert_payload ''critical'')
                            (Some (JStr ''T''))) = JStr ''critical''
         \<and> notifications (store (onmessage_A h d (risk_alert ''critical'') w)) =
             notifications (store w) @
               [\<lparr> n_id = uuid_notification d, n_type = error, n_message = JStr ''m'',
                  n_timestamp = now d \<rparr>]
         \<and> notifications (store (onmessage_A h d (risk_alert ''high'') w)) =
             notifications (store w) @
               [\<lparr> n_id = uuid_notification d, n_type = warning, n_message = JStr ''m'',
                  n_timestamp = now d \<rparr>]"
  using assms
  by (simp add: onmessage_A_def onmessage_try_def heartbeat_frame_def risk_alert_def
      risk_alert_payload_def send_def prop_of_def push_event_def build_event_def Let_def
      addEvent_def addNotification_def)

theorem C6_witness:
  "(0::nat) < length (sockets connected_A) \<and> readyState (sockets connected_A ! 0) = OPEN
   \<and> onmessage_A 0 sample_draws heartbeat_frame connected_A =
         connected_A\<lparr>sockets := (sockets connected_A)
            [0 := (sockets connected_A ! 0)\<lparr>sent := sent (sockets connected_A ! 0) @ [''ping'']\<rparr>]\<rparr>
   \<and> recentEvents (store (onmessage_A 0 sample_draws heartbeat_frame connected_A))
         = recentEvents (store connected_A)
   \<and> notifications (store (onmessage_A 0 sample_draws (risk_alert ''critical'') connected_A)) =
         notifications (store connected_A) @
           [\<lparr> n_id = uuid_notification sample_draws, n_type = error, n_message = JStr ''m'',
              n_timestamp = now sample_draws \<rparr>]
   \<and> notifications (store (onmessage_A 0 sample_draws (risk_alert ''high'') connected_A)) =
         notifications (store connected_A) @
           [\<lparr> n_id = uuid_notification sample_draws, n_type = warning, n_message = JStr ''m'',
              n_timestamp = now sample_draws \<rparr>]"
proof -
  have a: "(0::nat) < length (sockets connected_A)"
    and b: "readyState (sockets connected_A ! 0) = OPEN"
    by (simp_all add: connected_A_def run_A_def mounted_def signed_in_def connect_A_def
        truthy_token_def new_socket_def set_ready_def onopen_A_def)
  from C6_heartbeat_and_alerts [OF a b, of sample_draws] a b show ?thesis by blast
qed

text \<open>
  C7. A frame that is not JSON makes \<^verbatim>\<open>JSON.parse\<close> throw inside the
  \<^verbatim>\<open>try\<close> block; the handler catches it and returns, having written one console
  entry and nothing else: store, sockets, timers and both references are as before. The
  second copy of the hook does the same when mounted and nothing at all otherwise.
\<close>

theorem C7_malformed_frame_only_logged:
  "onmessage_try d (Malformed t) ws st = Inl SyntaxError
   \<and> onmessage_A h d (Malformed t) w =
       w\<lparr>console := console w @ [Error ''Failed to parse WebSocket message:'' SyntaxError]\<rparr>
   \<and> store (onmessage_A h d (Malformed t) w) = store w
   \<and> sockets (onmessage_A h d (Malformed t) w) = sockets w
   \<and> timeouts (onmessage_A h d (Malformed t) w) = timeouts w
   \<and> wsRef (onmessage_A h d (Malformed t) w) = wsRef w
   \<and> reconnectTimeoutRef (onmessage_A h d (Malformed t) w) = reconnectTimeoutRef w
   \<and> onmessage_B h d (Malformed t) v =
       (if isMountedRef v
        then v\<lparr>console := console v @ [Error ''WebSocket: Failed to parse message:'' SyntaxError]\<rparr>
        else v)"
  by (simp add: onmessage_try_def onmessage_A_def onmessage_B_def)

section \<open>Closing and reconnecting in frontend/src/hooks/useWebSocket.ts\<close>

lemma never_5000: "(5000::nat) \<noteq> min (1000 * 2 ^ n) 30000"
proof (cases "n < 3")
  case True
  then have "n = 0 \<or> n = 1 \<or> n = 2" by arith
  then show ?thesis by auto
next
  case False
  then have "(2::nat) ^ 3 \<le> 2 ^ n" by (intro power_increasing) simp_all
  then have "(8::nat) \<le> 2 ^ n" by simp
  then have "(8000::nat) \<le> 1000 * 2 ^ n" by simp
  then show ?thesis by simp
qed

text \<open>
  C1, on the code. \<^verbatim>\<open>ws.onclose\<close> of this hook sets its reconnect timer to 5000 ms
  whenever it sets one (the feed is enabled and the close was not clean), and 5000 is not
  \<open>min (1000 * 2 ^ n) 30000\<close> for any \<open>n\<close>.
\<close>

theorem C1_reconnect_delay_is_5000:
  "map delay (timeouts (onclose_A p ev w)) =
     map delay (timeouts w) @ (if enabled p \<and> \<not> wasClean ev then [5000] else [])
   \<and> (\<forall>n. (5000::nat) \<noteq> min (1000 * 2 ^ n) 30000)"
  by (simp add: onclose_A_def setTimeout_def Let_def never_5000)

text \<open>
  C2, on the code. This hook looks at \<^verbatim>\<open>wasClean\<close> only: an unclean close with
  code 4401 sets a reconnect timer like any other unclean close. The second copy returns
  before scheduling for that code and leaves its attempt counter alone.
\<close>

theorem C2_auth_close:
  "timeouts (onclose_A (p\<lparr>enabled := True\<rparr>) auth_rejected w)
       = timeouts w @ [\<lparr> delay = 5000, t_state = Pending, calls = p\<lparr>enabled := True\<rparr> \<rparr>]
   \<and> pending_timeouts (run_A connected_A [SockClose 0 auth_rejected]) = [0]
   \<and> timeouts (onclose_B q auth_rejected v) = timeouts v 
   \<and> reconnectAttemptsRef (onclose_B q auth_rejected v) = reconnectAttemptsRef v"
proof (intro conjI)
  show "timeouts (onclose_A (p\<lparr>enabled := True\<rparr>) auth_rejected w)
       = timeouts w @ [\<lparr> delay = 5000, t_state = Pending, calls = p\<lparr>enabled := True\<rparr> \<rparr>]"
    by (simp add: onclose_A_def setTimeout_def Let_def auth_rejected_def)
  show "pending_timeouts (run_A connected_A [SockClose 0 auth_rejected]) = [0]"
    by (simp add: connected_A_def run_A_def mounted_def signed_in_def connect_A_def truthy_token_def
        new_socket_def set_ready_def onopen_A_def onclose_A_def setTimeout_def Let_def
        auth_rejected_def pending_timeouts_def)
  show "timeouts (onclose_B q auth_rejected v) = timeouts v"
    by (simp add: onclose_B_def Let_def auth_rejected_def auth_failure_def clearInterval_def
        split: option.splits)
  show "reconnectAttemptsRef (onclose_B q auth_rejected v) = reconnectAttemptsRef v"
    by (simp add: onclose_B_def Let_def auth_rejected_def auth_failure_def clearInterval_def
        split: option.splits)
qed

lemma run_A_append: "run_A w (xs @ ys) = run_A (run_A w xs) ys"
  by (simp add: run_A_def)

lemma abnormal_cycles_Suc:
  "abnormal_cycles (Suc k) = abnormal_cycles k @ [SockClose k abnormal, TimerFires k None]"
  by (simp add: abnormal_cycles_def)

lemma concat_replicate_comm: "concat (replicate k xs) @ xs = xs @ concat (replicate k xs)"
  by (induction k) simp_all

lemma nth_replicate_snoc: "(replicate k a @ [b]) ! k = b"
  by (simp add: nth_append)

lemma upd_replicate_snoc: "(replicate k a @ [b])[k := c] = replicate k a @ [c]"
  by (simp add: list_update_append)

lemma one_cycle:
  "run_A (after_cycles k) [SockClose k abnormal, TimerFires k None] = after_cycles (Suc k)"
proof -
  have close: "step_A (after_cycles k) (SockClose k abnormal) =
     (after_cycles k)\<lparr>sockets := replicate (Suc k) closed_socket,
        timeouts := replicate k \<lparr> delay = 5000, t_state = Fired, calls = signed_in \<rparr>
                      @ [\<lparr> delay = 5000, t_state = Pending, calls = signed_in \<rparr>],
        console := console (after_cycles k) @ [Log ''WebSocket closed:''],
        wsRef := None, reconnectTimeoutRef := Some k\<rparr>"
    by (simp add: after_cycles_def nth_replicate_snoc upd_replicate_snoc new_socket_def
        set_ready_def onclose_A_def abnormal_def signed_in_def setTimeout_def Let_def
        closed_socket_def replicate_append_same)
  show ?thesis
    unfolding run_A_def foldl.simps close
    by (simp add: after_cycles_def nth_replicate_snoc upd_replicate_snoc set_fired_def
        reconnect_A_def connect_A_def signed_in_def truthy_token_def replicate_append_same
        replicate_app_Cons_same wsUrl_A_def mounted_def concat_replicate_comm)
qed

lemma run_cycles: "run_A mounted (Connect signed_in None # abnormal_cycles k) = after_cycles k"
proof (induction k)
  case 0
  show ?case
    by (simp add: run_A_def abnormal_cycles_def after_cycles_def connect_A_def signed_in_def
        truthy_token_def mounted_def wsUrl_A_def)
next
  case (Suc k)
  have "run_A mounted (Connect signed_in None # abnormal_cycles (Suc k))
        = run_A (run_A mounted (Connect signed_in None # abnormal_cycles k))
            [SockClose k abnormal, TimerFires k None]"
    by (simp only: abnormal_cycles_Suc run_A_append append_Cons [symmetric])
  then show ?case by (simp only: Suc.IH one_cycle)
qed

text \<open>
  C3, on the code. This hook keeps no count of attempts: after any number \<open>k\<close> of abnormal
  closures in a row, each followed by its timer, \<open>k\<close> reconnects have been scheduled (each
  at 5000 ms), the \<open>k\<close> closed sockets have been replaced by a new connecting one, and no
  notification has been emitted.
\<close>

theorem C3_retry_has_no_ceiling:
  "map delay (timeouts (run_A mounted (Connect signed_in None # abnormal_cycles k))) = replicate k 5000
   \<and> map readyState (sockets (run_A mounted (Connect signed_in None # abnormal_cycles k)))
        = replicate k CLOSED @ [CONNECTING]
   \<and> notifications (store (run_A mounted (Connect signed_in None # abnormal_cycles k))) = []
   \<and> length (abnormal_cycles k) = 2 * k"
proof -
  have "length (abnormal_cycles k) = 2 * k"
    by (simp add: abnormal_cycles_def length_concat comp_def sum_list_triv)
  then show ?thesis
    unfolding run_cycles
    by (simp add: after_cycles_def closed_socket_def new_socket_def mounted_def initialState_def)
qed

text \<open>
  C8, as amended. When the constructor throws, \<^verbatim>\<open>connect\<close> catches the exception
  and writes it to the console; it sets no timer, creates no socket and leaves the store
  and both references alone, so the failure is not handled like a closure: no reconnect
  follows. The same holds for the second copy of the hook, which also leaves its attempt
  counter alone.
\<close>

theorem C8_construction_failure_is_logged_only:
  "timeouts (connect_A p (Some e) w) = timeouts w
   \<and> reconnectTimeoutRef (connect_A p (Some e) w) = reconnectTimeoutRef w
   \<and> length (sockets (connect_A p (Some e) w)) = length (sockets w)
   \<and> wsRef (connect_A p (Some e) w) = wsRef w
   \<and> store (connect_A p (Some e) w) = store w
   \<and> console (connect_A p (Some e) w) =
        console w @ (if truthy_token (token p) \<and> enabled p
                     then [Error ''Failed to create WebSocket:'' e] else [])
   \<and> timeouts (connect_B p u (Some e) d v) = timeouts v
   \<and> reconnectTimeoutRef (connect_B p u (Some e) d v) = reconnectTimeoutRef v
   \<and> reconnectAttemptsRef (connect_B p u (Some e) d v) = reconnectAttemptsRef v
   \<and> length (sockets (connect_B p u (Some e) d v)) = length (sockets v)"
  by (simp add: connect_A_def connect_B_def give_up_def close_handle_def Let_def
      split: option.splits)

theorem C8_witness:
  "truthy_token (token signed_in) \<and> enabled signed_in
   \<and> timeouts (connect_A signed_in (Some SyntaxError) mounted) = timeouts mounted
   \<and> length (sockets (connect_A signed_in (Some SyntaxError) mounted)) = length (sockets mounted)
   \<and> console (connect_A signed_in (Some SyntaxError) mounted) =
        console mounted @ [Error ''Failed to create WebSocket:'' SyntaxError]"
proof -
  have g: "truthy_token (token signed_in) \<and> enabled signed_in"
    by (simp add: signed_in_def truthy_token_def)
  from C8_construction_failure_is_logged_only [of signed_in SyntaxError mounted] g
  show ?thesis by simp
qed

text \<open>
  The claim as written fails: from the same state an abnormal closure sets a reconnect
  timer and a throwing constructor sets none.
\<close>

theorem C8_counterexample:
  "timeouts (connect_A signed_in (Some SyntaxError) mounted) = []
   \<and> timeouts (onclose_A signed_in abnormal mounted)
       = [\<lparr> delay = 5000, t_state = Pending, calls = signed_in \<rparr>]"
  by (simp add: connect_A_def onclose_A_def signed_in_def mounted_def truthy_token_def
      abnormal_def setTimeout_def Let_def)

text \<open>
  C9, on the code. \<^verbatim>\<open>connect\<close> of this hook always opens a socket when the feed
  is enabled and a token is present: called while a socket is connecting, it closes that
  socket and opens a second one. The first socket's close handler is still attached and
  clears \<^verbatim>\<open>wsRef\<close>, so when the first socket's close arrives unclean and its timer
  fires, a third socket is opened while the second is still live: two live handles.
\<close>

theorem C9_second_connect_is_not_a_noop:
  "length (sockets (connect_A signed_in None w)) = Suc (length (sockets w))
   \<and> map readyState (sockets (run_A mounted [Connect signed_in None, Connect signed_in None]))
       = [CLOSING, CONNECTING]
   \<and> live_handles (run_A mounted
        [Connect signed_in None, Connect signed_in None, SockClose 0 abnormal,
         TimerFires 0 None]) = [1, 2]"
proof (intro conjI)
  show "length (sockets (connect_A signed_in None w)) = Suc (length (sockets w))"
    by (simp add: connect_A_def signed_in_def truthy_token_def close_handle_def Let_def
        split: option.splits)
  show "map readyState (sockets (run_A mounted [Connect signed_in None, Connect signed_in None]))
       = [CLOSING, CONNECTING]"
    by (simp add: run_A_def mounted_def connect_A_def signed_in_def truthy_token_def
        close_handle_def close_def is_live_def new_socket_def Let_def)
  show "live_handles (run_A mounted
        [Connect signed_in None, Connect signed_in None, SockClose 0 abnormal,
         TimerFires 0 None]) = [1, 2]"
    by (simp add: run_A_def mounted_def connect_A_def signed_in_def truthy_token_def
        close_handle_def close_def is_live_def new_socket_def Let_def abnormal_def
        set_ready_def onclose_A_def setTimeout_def set_fired_def reconnect_A_def
        live_handles_def upt_rec)
qed

theorem C9_witness:
  "truthy_token (token signed_in) \<and> enabled signed_in
   \<and> length (sockets (connect_A signed_in None connected_A)) = Suc (length (sockets connected_A))
   \<and> live_handles (run_A mounted
        [Connect signed_in None, Connect signed_in None, SockClose 0 abnormal,
         TimerFires 0 None]) = [1, 2]"
proof -
  have g: "truthy_token (token signed_in) \<and> enabled signed_in"
    by (simp add: signed_in_def truthy_token_def)
  from C9_second_connect_is_not_a_noop [of connected_A] g show ?thesis by blast
qed

section \<open>Closing and reconnecting in the second copy\<close>

text \<open>
  The second copy computes the delay from its attempt counter, after incrementing it,
  and schedules a reconnect exactly for unclean closes outside its four authentication
  codes, while mounted and enabled.
\<close>

lemma B_delay_formula: "getReconnectDelay w = min (1000 * 2 ^ reconnectAttemptsRef w) 30000"
  by (simp add: getReconnectDelay_def INITIAL_RECONNECT_DELAY_MS_def MAX_RECONNECT_DELAY_MS_def)

lemma B_onclose_policy:
  "map delay (timeouts (onclose_B p ev w)) =
     map delay (timeouts w) @
       (if isMountedRef w \<and> \<not> wasClean ev \<and> \<not> auth_failure ev \<and> enabled p
        then [min (1000 * 2 ^ Suc (reconnectAttemptsRef w)) 30000] else [])
   \<and> reconnectAttemptsRef (onclose_B p ev w) =
       (if isMountedRef w \<and> \<not> wasClean ev \<and> \<not> auth_failure ev \<and> enabled p
        then Suc (reconnectAttemptsRef w) else reconnectAttemptsRef w)"
  by (simp add: onclose_B_def Let_def clearInterval_def setTimeout_def getReconnectDelay_def
      INITIAL_RECONNECT_DELAY_MS_def MAX_RECONNECT_DELAY_MS_def split: option.splits)

text \<open>Its \<^verbatim>\<open>connect\<close> does nothing while a socket is connecting or open.\<close>

lemma B_connect_noop:
  "ref_state w = Some OPEN \<or> ref_state w = Some CONNECTING \<or> isConnectingRef w
     \<Longrightarrow> connect_B p u c d w = w"
  by (auto simp: connect_B_def)

text \<open>Once the counter has reached the maximum, its \<^verbatim>\<open>connect\<close> opens no socket and sets no timer.\<close>

lemma B_ceiling:
  "MAX_RECONNECT_ATTEMPTS \<le> reconnectAttemptsRef w \<Longrightarrow>
     sockets (connect_B p u c d w) = sockets w \<and> timeouts (connect_B p u c d w) = timeouts w
   \<and> reconnectAttemptsRef (connect_B p u c d w) = reconnectAttemptsRef w"
  by (simp add: connect_B_def give_up_def)

lemma B_give_up_notification:
  "MAX_RECONNECT_ATTEMPTS \<le> reconnectAttemptsRef w \<Longrightarrow> isMountedRef w \<Longrightarrow> may_connect p \<Longrightarrow>
   \<not> isConnectingRef w \<Longrightarrow> wsRef w = None \<Longrightarrow>
     notifications (store (connect_B p u c d w)) =
       notifications (store w) @
         [\<lparr> n_id = uuid_notification d, n_type = warning,
            n_message = JStr ''Live events disconnected. Refresh page to reconnect.'',
            n_timestamp = now d \<rparr>]"
  by (simp add: connect_B_def give_up_def may_connect_def ref_state_def addNotification_def)

text \<open>
  In every state the second copy can reach from a fresh mount, whatever the render, the
  browser and the timers do, at most one socket is connecting or open.
\<close>

lemma one_handle_frame:
  assumes a: "one_handle w" and s: "sockets w' = sockets w" and r: "wsRef w' = wsRef w"
  shows "one_handle w'"
  unfolding one_handle_def s r using a [unfolded one_handle_def] .

lemma one_handle_D1:
  "one_handle w \<Longrightarrow> k < length (sockets w) \<Longrightarrow>
     is_live (sockets w ! k) \<or> attached (sockets w ! k) \<Longrightarrow> wsRef w = Some k"
  unfolding one_handle_def by blast

lemma one_handle_D2: "one_handle w \<Longrightarrow> wsRef w = Some k \<Longrightarrow> k < length (sockets w)"
  unfolding one_handle_def by blast

lemma one_handle_I:
  assumes "\<And>k. k < length (sockets w) \<Longrightarrow> is_live (sockets w ! k) \<or> attached (sockets w ! k)
               \<Longrightarrow> wsRef w = Some k"
    and "\<And>k. wsRef w = Some k \<Longrightarrow> k < length (sockets w)"
  shows "one_handle w"
  unfolding one_handle_def using assms by blast

lemma one_handle_at_ref:
  assumes a: "one_handle w" and r: "wsRef w = Some h"
    and s: "sockets w' = (sockets w)[h := x]" and r': "wsRef w' = Some h"
  shows "one_handle w'"
proof (rule one_handle_I)
  fix k
  assume k: "k < length (sockets w')" and l: "is_live (sockets w' ! k) \<or> attached (sockets w' ! k)"
  show "wsRef w' = Some k"
  proof (cases "k = h")
    case True
    then show ?thesis by (simp add: r')
  next
    case False
    then have "sockets w' ! k = sockets w ! k" by (simp add: s)
    with l k have "wsRef w = Some k" by (intro one_handle_D1 [OF a]) (simp_all add: s)
    with r False show ?thesis by simp
  qed
next
  fix k
  assume "wsRef w' = Some k"
  then have "k = h" by (simp add: r')
  then show "k < length (sockets w')" using one_handle_D2 [OF a r] by (simp add: s)
qed

lemma one_handle_dead:
  assumes a: "one_handle w" and s: "sockets w' = (sockets w)[h := x]"
    and d: "\<not> is_live x" "\<not> attached x" and r': "wsRef w' = wsRef w"
  shows "one_handle w'"
proof (rule one_handle_I)
  fix k
  assume k: "k < length (sockets w')" and l: "is_live (sockets w' ! k) \<or> attached (sockets w' ! k)"
  have kh: "k \<noteq> h"
  proof
    assume "k = h"
    with k have "sockets w' ! k = x" by (simp add: s)
    with l d show False by simp
  qed
  then have "sockets w' ! k = sockets w ! k" by (simp add: s)
  with l k have "wsRef w = Some k" by (intro one_handle_D1 [OF a]) (simp_all add: s)
  then show "wsRef w' = Some k" by (simp add: r')
next
  fix k
  assume "wsRef w' = Some k"
  then have "wsRef w = Some k" by (simp add: r')
  then show "k < length (sockets w')" using one_handle_D2 [OF a] by (simp add: s)
qed

lemma one_handle_release:
  assumes a: "one_handle w" and r: "wsRef w = Some h" and s: "sockets w' = (sockets w)[h := x]"
    and d: "\<not> is_live x" "\<not> attached x" and r': "wsRef w' = None"
  shows "one_handle w'"
proof (rule one_handle_I)
  fix k
  assume k: "k < length (sockets w')" and l: "is_live (sockets w' ! k) \<or> attached (sockets w' ! k)"
  have kh: "k \<noteq> h"
  proof
    assume "k = h"
    with k have "sockets w' ! k = x" by (simp add: s)
    with l d show False by simp
  qed
  then have "sockets w' ! k = sockets w ! k" by (simp add: s)
  with l k have "wsRef w = Some k" by (intro one_handle_D1 [OF a]) (simp_all add: s)
  with r kh show "wsRef w' = Some k" by simp
next
  fix k
  assume "wsRef w' = Some k"
  then show "k < length (sockets w')" by (simp add: r')
qed

lemma one_handle_fresh:
  assumes a: "one_handle w" and r: "wsRef w = None" and s: "sockets w' = sockets w @ [x]"
    and r': "wsRef w' = Some (length (sockets w))"
  shows "one_handle w'"
proof (rule one_handle_I)
  fix k
  assume k: "k < length (sockets w')" and l: "is_live (sockets w' ! k) \<or> attached (sockets w' ! k)"
  show "wsRef w' = Some k"
  proof (cases "k < length (sockets w)")
    case True
    then have "sockets w' ! k = sockets w ! k" by (simp add: s nth_append)
    with l True have "wsRef w = Some k" by (intro one_handle_D1 [OF a]) simp_all
    with r show ?thesis by simp
  next
    case False
    with k have "k = length (sockets w)" by (simp add: s)
    then show ?thesis by (simp add: r')
  qed
next
  fix k
  assume "wsRef w' = Some k"
  then show "k < length (sockets w')" by (simp add: r' s)
qed

lemma sockets_clearTimeout [simp]: "sockets (clearTimeout t w) = sockets w"
  and wsRef_clearTimeout [simp]: "wsRef (clearTimeout t w) = wsRef w"
  by (simp_all add: clearTimeout_def)

lemma sockets_clearInterval [simp]: "sockets (clearInterval t w) = sockets w"
  and wsRef_clearInterval [simp]: "wsRef (clearInterval t w) = wsRef w"
  by (simp_all add: clearInterval_def)

lemma sockets_setTimeout [simp]: "sockets (setTimeout p ms w) = sockets w"
  and wsRef_setTimeout [simp]: "wsRef (setTimeout p ms w) = wsRef w"
  by (simp_all add: setTimeout_def)

lemma sockets_setInterval [simp]: "sockets (setInterval p ms w) = sockets w"
  and wsRef_setInterval [simp]: "wsRef (setInterval p ms w) = wsRef w"
  by (simp_all add: setInterval_def)

lemma sockets_set_fired [simp]: "sockets (set_fired t w) = sockets w"
  and wsRef_set_fired [simp]: "wsRef (set_fired t w) = wsRef w"
  by (simp_all add: set_fired_def)

lemma dead_close_detach_all: "\<not> is_live (close (detach_all s)) \<and> \<not> attached (close (detach_all s))"
  by (simp add: close_def detach_all_def is_live_def attached_def)

lemma dead_close_detach_onclose:
  "\<not> is_live (close (detach_onclose s)) \<and> \<not> attached (close (detach_onclose s))"
  by (simp add: close_def detach_onclose_def is_live_def attached_def)

lemma one_handle_cleanup: "one_handle w \<Longrightarrow> one_handle (cleanup_B w)"
proof -
  assume a: "one_handle w"
  show ?thesis
  proof (cases "wsRef w")
    case None
    show ?thesis
      by (rule one_handle_frame [OF a]) (simp_all add: cleanup_B_def Let_def None split: option.splits)
  next
    case (Some h)
    show ?thesis
      by (rule one_handle_release [OF a Some, where x = "close (detach_all (sockets w ! h))"])
         (simp_all add: cleanup_B_def Let_def Some dead_close_detach_all split: option.splits)
  qed
qed

lemma one_handle_effect: "one_handle w \<Longrightarrow> one_handle (effect_B p w)"
  by (erule one_handle_frame) (simp_all add: effect_B_def Let_def)

lemma one_handle_mounted_flag: "one_handle w \<Longrightarrow> one_handle (w\<lparr>isMountedRef := b\<rparr>)"
  by (erule one_handle_frame) simp_all

lemma one_handle_effect_cleanup: "one_handle w \<Longrightarrow> one_handle (effect_cleanup_B p t w)"
proof (cases "may_connect p")
  case True
  assume "one_handle w"
  then show ?thesis
    by (rule one_handle_frame) (simp_all add: effect_cleanup_B_def True)
next
  case False
  assume "one_handle w"
  then have "one_handle (cleanup_B (w\<lparr>isMountedRef := False\<rparr>))"
    by (intro one_handle_cleanup one_handle_mounted_flag)
  then show ?thesis by (simp add: effect_cleanup_B_def False)
qed

lemma one_handle_unmount: "one_handle w \<Longrightarrow> one_handle (unmount_B w)"
  unfolding unmount_B_def by (intro one_handle_cleanup one_handle_mounted_flag)


lemma one_handle_same_shape:
  assumes a: "one_handle w" and s: "sockets w' = (sockets w)[h := x]"
    and l: "is_live x = is_live (sockets w ! h)" "attached x = attached (sockets w ! h)"
    and r': "wsRef w' = wsRef w"
  shows "one_handle w'"
proof (rule one_handle_I)
  fix k
  assume k: "k < length (sockets w')" and c: "is_live (sockets w' ! k) \<or> attached (sockets w' ! k)"
  have "is_live (sockets w ! k) \<or> attached (sockets w ! k)"
  proof (cases "k = h")
    case True
    with k have "sockets w' ! k = x" by (simp add: s)
    with c l True show ?thesis by simp
  next
    case False
    then have "sockets w' ! k = sockets w ! k" by (simp add: s)
    with c show ?thesis by simp
  qed
  with k have "wsRef w = Some k" by (intro one_handle_D1 [OF a]) (simp_all add: s)
  then show "wsRef w' = Some k" by (simp add: r')
next
  fix k
  assume "wsRef w' = Some k"
  then have "wsRef w = Some k" by (simp add: r')
  then show "k < length (sockets w')" using one_handle_D2 [OF a] by (simp add: s)
qed

lemma connect_B_noop:
  "\<not> isMountedRef w \<or> \<not> truthy_token (token p) \<or> \<not> isAuthenticated p \<or> \<not> enabled p
     \<or> isConnectingRef w \<or> ref_state w = Some OPEN \<or> ref_state w = Some CONNECTING
   \<Longrightarrow> connect_B p u c d w = w"
  by (elim disjE) (simp_all add: connect_B_def)

lemma one_handle_connect:
  assumes a: "one_handle w"
  shows "one_handle (connect_B p u c d w)"
proof -
  let ?stay = "\<not> isMountedRef w \<or> \<not> truthy_token (token p) \<or> \<not> isAuthenticated p \<or> \<not> enabled p
     \<or> isConnectingRef w \<or> ref_state w = Some OPEN \<or> ref_state w = Some CONNECTING"
  show ?thesis
  proof (cases ?stay)
    case True
    then have "connect_B p u c d w = w" by (rule connect_B_noop)
    with a show ?thesis by simp
  next
    case False
    then have g: "isMountedRef w" "truthy_token (token p)" "isAuthenticated p" "enabled p"
      "\<not> isConnectingRef w" "ref_state w \<noteq> Some OPEN" "ref_state w \<noteq> Some CONNECTING"
      by blast+
    show ?thesis
    proof (cases "MAX_RECONNECT_ATTEMPTS \<le> reconnectAttemptsRef w")
      case True
      show ?thesis
        by (rule one_handle_frame [OF a]) (simp_all add: connect_B_def g True give_up_def)
    next
      case below: False
      show ?thesis
      proof (cases "wsRef w")
        case None
        show ?thesis
        proof (cases c)
          case ok: None
          show ?thesis
            by (rule one_handle_fresh [OF a None, where x = "new_socket u p"])
               (simp_all add: connect_B_def g below None ok Let_def)
        next
          case (Some e)
          show ?thesis
            by (rule one_handle_frame [OF a]) (simp_all add: connect_B_def g below None Some Let_def)
        qed
      next
        case (Some h)
        have hl: "h < length (sockets w)" by (rule one_handle_D2 [OF a Some])
        define w2 where "w2 = w\<lparr>isConnectingRef := True,
            sockets := (sockets w)[h := close (detach_onclose (sockets w ! h))], wsRef := None\<rparr>"
        have o2: "one_handle w2"
          by (rule one_handle_release [OF a Some, where x = "close (detach_onclose (sockets w ! h))"])
             (simp_all add: w2_def dead_close_detach_onclose)
        have n2: "wsRef w2 = None" by (simp add: w2_def)
        show ?thesis
        proof (cases c)
          case ok: None
          have "connect_B p u c d w =
                  w2\<lparr>sockets := sockets w2 @ [new_socket u p], wsRef := Some (length (sockets w2))\<rparr>"
            by (simp add: connect_B_def g below Some ok Let_def w2_def)
          then show ?thesis
            by (simp only:) (rule one_handle_fresh [OF o2 n2, where x = "new_socket u p"], simp_all)
        next
          case fail: (Some e)
          have "connect_B p u c d w =
                  w2\<lparr>console := console w2 @ [Error ''WebSocket: Failed to create connection:'' e],
                     isConnectingRef := False\<rparr>"
            by (simp add: connect_B_def g below Some fail Let_def w2_def)
          then show ?thesis
            by (simp only:) (rule one_handle_frame [OF o2], simp_all)
        qed
      qed
    qed
  qed
qed

lemma one_handle_timer: "one_handle w \<Longrightarrow> one_handle (timer_B p u c d w)"
  by (simp add: timer_B_def one_handle_connect)

lemma one_handle_set_fired: "one_handle w \<Longrightarrow> one_handle (set_fired t w)"
  by (erule one_handle_frame) simp_all

lemma one_handle_onopen:
  assumes a: "one_handle w" and r: "wsRef w = Some h"
  shows "one_handle (onopen_B h d w)"
proof (cases "isMountedRef w")
  case False
  have hl: "h < length (sockets w)" by (rule one_handle_D2 [OF a r])
  show ?thesis
    by (rule one_handle_at_ref [OF a r, where x = "close (sockets w ! h)"])
       (simp_all add: onopen_B_def False close_handle_def hl r)
next
  case True
  show ?thesis
    by (rule one_handle_frame [OF a]) (simp_all add: onopen_B_def True Let_def split: option.splits)
qed

lemma one_handle_open: "one_handle w \<Longrightarrow> one_handle (step_B w (Open_B h d))"
proof -
  assume a: "one_handle w"
  show ?thesis
  proof (cases "h < length (sockets w) \<and> readyState (sockets w ! h) = CONNECTING")
    case False
    with a show ?thesis by auto
  next
    case True
    then have hl: "h < length (sockets w)" and c: "readyState (sockets w ! h) = CONNECTING" by simp_all
    have r: "wsRef w = Some h"
      by (rule one_handle_D1 [OF a hl]) (simp add: is_live_def c)
    have o: "one_handle (set_ready h OPEN w)"
      by (rule one_handle_at_ref [OF a r, where x = "(sockets w ! h)\<lparr>readyState := OPEN\<rparr>"])
         (simp_all add: set_ready_def r)
    have r2: "wsRef (set_ready h OPEN w) = Some h" by (simp add: set_ready_def r)
    show ?thesis using True o one_handle_onopen [OF o r2] by simp
  qed
qed

lemma onmessage_try_ws:
  assumes "onmessage_try d f ws st = Inr (ws', st')"
  shows "ws' = ws \<or> ws' = ws\<lparr>sent := sent ws @ [''ping'']\<rparr>"
proof (cases f)
  case (Malformed x)
  with assms show ?thesis by (simp add: onmessage_try_def)
next
  case (WellFormed data)
  with assms show ?thesis
    by (auto simp: onmessage_try_def send_def
        split: sum.splits if_splits option.splits ready_state.splits)
qed

lemma one_handle_message: "one_handle w \<Longrightarrow> one_handle (step_B w (Message_B h d f))"
proof -
  assume a: "one_handle w"
  show ?thesis
  proof (cases "h < length (sockets w) \<and> readyState (sockets w ! h) \<in> {OPEN, CLOSING}
                  \<and> onmessage_set (sockets w ! h) \<and> isMountedRef w")
    case False
    with a show ?thesis by (auto simp: onmessage_B_def)
  next
    case True
    show ?thesis
    proof (cases "onmessage_try d f (sockets w ! h) (store w)")
      case (Inl e)
      show ?thesis
        by (rule one_handle_frame [OF a]) (simp_all add: onmessage_B_def Inl)
    next
      case (Inr r)
      obtain ws' st' where r: "r = (ws', st')" by (cases r)
      from onmessage_try_ws [OF Inr [unfolded r]]
      have l: "is_live ws' = is_live (sockets w ! h)" "attached ws' = attached (sockets w ! h)"
        by (auto simp: is_live_def attached_def)
      show ?thesis
        by (rule one_handle_same_shape [OF a _ l])
           (use True in \<open>simp_all add: onmessage_B_def Inr r\<close>)
    qed
  qed
qed

lemma one_handle_onclose:
  assumes a: "one_handle w" and r: "wsRef w = Some h"
    and d: "\<not> is_live (sockets w ! h)" "\<not> attached (sockets w ! h)"
  shows "one_handle (onclose_B p ev w)"
proof (cases "isMountedRef w")
  case False
  with a show ?thesis by (simp add: onclose_B_def)
next
  case True
  show ?thesis
    by (rule one_handle_release [OF a r _ d])
       (simp_all add: onclose_B_def True Let_def split: option.splits)
qed

lemma one_handle_close: "one_handle w \<Longrightarrow> one_handle (step_B w (Close_B h ev))"
proof -
  assume a: "one_handle w"
  show ?thesis
  proof (cases "h < length (sockets w) \<and> readyState (sockets w ! h) \<noteq> CLOSED")
    case False
    with a show ?thesis by auto
  next
    case True
    then have hl: "h < length (sockets w)" and c: "readyState (sockets w ! h) \<noteq> CLOSED" by simp_all
    let ?x = "(sockets w ! h)\<lparr>readyState := CLOSED\<rparr>"
    have dx: "\<not> is_live ?x" "\<not> attached ?x" by (simp_all add: is_live_def attached_def)
    have o: "one_handle (set_ready h CLOSED w)"
      by (rule one_handle_dead [OF a _ dx]) (simp_all add: set_ready_def)
    show ?thesis
    proof (cases "onclose_set (sockets w ! h)")
      case False
      with True o show ?thesis by simp
    next
      case set: True
      have r: "wsRef w = Some h"
        by (rule one_handle_D1 [OF a hl]) (simp add: attached_def set c)
      have r2: "wsRef (set_ready h CLOSED w) = Some h" by (simp add: set_ready_def r)
      have d2: "\<not> is_live (sockets (set_ready h CLOSED w) ! h)"
               "\<not> attached (sockets (set_ready h CLOSED w) ! h)"
        using hl by (simp_all add: set_ready_def is_live_def attached_def)
      show ?thesis using True set one_handle_onclose [OF o r2 d2] by simp
    qed
  qed
qed

lemma one_handle_error: "one_handle w \<Longrightarrow> one_handle (step_B w (Error_B h))"
proof -
  assume a: "one_handle w"
  have "one_handle (onerror_B w)"
    by (rule one_handle_frame [OF a]) (simp_all add: onerror_B_def)
  with a show ?thesis by simp
qed

lemma one_handle_ping_B: "one_handle w \<Longrightarrow> one_handle (ping_B w)"
proof -
  assume a: "one_handle w"
  show ?thesis
  proof (cases "wsRef w")
    case None
    with a show ?thesis by (simp add: ping_B_def)
  next
    case (Some h)
    show ?thesis
    proof (cases "readyState (sockets w ! h) = OPEN")
      case False
      with a Some show ?thesis by (simp add: ping_B_def)
    next
      case True
      show ?thesis
        by (rule one_handle_same_shape [OF a, where h = h
              and x = "(sockets w ! h)\<lparr>sent := sent (sockets w ! h) @ [''ping'']\<rparr>"])
           (simp_all add: ping_B_def Some True is_live_def attached_def)
    qed
  qed
qed

lemma one_handle_step: "one_handle w \<Longrightarrow> one_handle (step_B w ev)"
proof -
  assume a: "one_handle w"
  show ?thesis
  proof (cases ev)
    case (Effect p)
    then show ?thesis using one_handle_effect [OF a] by simp
  next
    case (EffectCleanup p t)
    then show ?thesis using one_handle_effect_cleanup [OF a] by simp
  next
    case Unmount
    then show ?thesis using one_handle_unmount [OF a] by simp
  next
    case (Open_B h d)
    then show ?thesis using one_handle_open [OF a] by simp
  next
    case (Message_B h d f)
    then show ?thesis using one_handle_message [OF a] by simp
  next
    case (Close_B h c)
    then show ?thesis using one_handle_close [OF a] by simp
  next
    case (Error_B h)
    then show ?thesis using one_handle_error [OF a] by simp
  next
    case (Timer_B t u c d)
    then show ?thesis using a one_handle_timer [OF one_handle_set_fired [OF a]] by simp
  next
    case (Ping_B i)
    then show ?thesis using a one_handle_ping_B [OF a] by simp
  qed
qed

lemma one_handle_run: "one_handle w \<Longrightarrow> one_handle (run_B w evs)"
  unfolding run_B_def by (induction evs arbitrary: w) (simp_all add: one_handle_step)

lemma one_handle_mounted_B: "one_handle mounted_B"
  by (rule one_handle_I) (simp_all add: mounted_B_def)

lemma one_handle_live: "one_handle w \<Longrightarrow> length (live_handles w) \<le> 1"
proof -
  assume a: "one_handle w"
  have d: "distinct (live_handles w)" by (simp add: live_handles_def)
  have "set (live_handles w) \<subseteq> (case wsRef w of None \<Rightarrow> {} | Some h \<Rightarrow> {h})"
  proof
    fix k
    assume "k \<in> set (live_handles w)"
    then have "k < length (sockets w)" "is_live (sockets w ! k)" by (simp_all add: live_handles_def)
    then have "wsRef w = Some k" by (intro one_handle_D1 [OF a]) simp_all
    then show "k \<in> (case wsRef w of None \<Rightarrow> {} | Some h \<Rightarrow> {h})" by simp
  qed
  then have "card (set (live_handles w)) \<le> card (case wsRef w of None \<Rightarrow> {} | Some h \<Rightarrow> {h})"
    by (intro card_mono) (auto split: option.splits)
  also have "\<dots> \<le> 1" by (simp split: option.splits)
  finally show ?thesis using d by (simp add: distinct_card)
qed

lemma B_one_live_handle: "length (live_handles (run_B mounted_B evs)) \<le> 1"
  by (intro one_handle_live one_handle_run one_handle_mounted_B)

end
